theory Spec2Isabelle
  imports Complex_Main
begin

section \<open>JavaScript values the services inspect\<close>

text \<open>
  The services never look inside a thrown value beyond three questions:
  \<^verbatim>\<open>error instanceof Error\<close>, \<^verbatim>\<open>error.name\<close> and \<^verbatim>\<open>error.code\<close>.
  The values that can reach their \<^verbatim>\<open>catch\<close> blocks are:
  \<^item> \<open>Error m\<close>: \<^verbatim>\<open>new Error(m)\<close>, as \<^verbatim>\<open>generateLink\<close> throws it;
  \<^item> \<open>TypeError m\<close>: a property read on \<^verbatim>\<open>undefined\<close> or \<^verbatim>\<open>null\<close>
    (\<^verbatim>\<open>navigator.geolocation\<close> or \<^verbatim>\<open>navigator.mediaDevices\<close> missing, a JSON body
    that is \<^verbatim>\<open>null\<close>);
  \<^item> \<open>DOMException n c\<close>: what \<^verbatim>\<open>getUserMedia\<close> rejects with, \<open>n\<close> its name
    (\<^verbatim>\<open>NotAllowedError\<close>, \<^verbatim>\<open>NotFoundError\<close>, ...) and \<open>c\<close> its legacy code.
    \<^verbatim>\<open>DOMException.prototype\<close> inherits from \<^verbatim>\<open>Error.prototype\<close>;
  \<^item> \<open>GeolocationPositionError c\<close>: what \<^verbatim>\<open>getCurrentPosition\<close> hands to its failure
    callback, \<open>c\<close> being 1 (permission denied), 2 (position unavailable) or 3 (timeout).
    It is a plain interface object: its prototype chain does not contain
    \<^verbatim>\<open>Error.prototype\<close>, and it has no \<^verbatim>\<open>name\<close>;
  \<^item> \<open>SdkError m\<close>: an error of the realtime-database client (an invalid path given
    to \<^verbatim>\<open>ref\<close>, a rejected write). Its \<^verbatim>\<open>code\<close>, when it has one, is a string.
\<close>

datatype thrown =
    Error string
  | TypeError string
  | DOMException string nat
  | GeolocationPositionError nat
  | SdkError string

fun instanceof_Error :: "thrown \<Rightarrow> bool" where
  "instanceof_Error (Error m) = True"
| "instanceof_Error (TypeError m) = True"
| "instanceof_Error (DOMException n c) = True"
| "instanceof_Error (GeolocationPositionError c) = False"
| "instanceof_Error (SdkError m) = True"

fun error_name :: "thrown \<Rightarrow> string option" where
  "error_name (Error m) = Some ''Error''"
| "error_name (TypeError m) = Some ''TypeError''"
| "error_name (DOMException n c) = Some n"
| "error_name (GeolocationPositionError c) = None"
| "error_name (SdkError m) = Some ''Error''"

text \<open>\<^verbatim>\<open>error.code\<close> where it is a number; \<open>None\<close> where it is absent or a string.\<close>

fun error_code :: "thrown \<Rightarrow> nat option" where
  "error_code (Error m) = None"
| "error_code (TypeError m) = None"
| "error_code (DOMException n c) = Some c"
| "error_code (GeolocationPositionError c) = Some c"
| "error_code (SdkError m) = None"

text \<open>
  What an awaited promise does: it resolves with a value, it rejects with a thrown
  value, or it never settles (a permission prompt nobody answers, a video whose metadata
  never arrives, a write queued while offline).
\<close>

datatype 'a promise = Resolved 'a | Rejected thrown | Pending

text \<open>Truthiness of a string, as \<^verbatim>\<open>if (s)\<close> and \<^verbatim>\<open>a || b\<close> test it.\<close>

definition truthy :: "string \<Rightarrow> bool" where
  "truthy s = (s \<noteq> [])"

section \<open>Data model\<close>

text \<open>\<^verbatim>\<open>TrackingData\<close> and its parts; an optional field is an \<open>option\<close>.\<close>

record Location =
  latitude :: real
  longitude :: real
  country :: "string option"
  countryCode :: "string option"
  city :: "string option"

record Device =
  device_type :: string
  os :: string
  browser :: string
  screenResolution :: string

record Errors =
  errors_location :: "string option"
  errors_photo :: "string option"
  errors_save :: "string option"

record TrackingData =
  timestamp :: nat
  ip :: "string option"
  location :: "Location option"
  device :: "Device option"
  photo :: "string option"
  errors :: Errors

text \<open>The results of the two acquisition steps: \<^verbatim>\<open>{ location?, error? }\<close> and \<^verbatim>\<open>{ photo?, error? }\<close>.\<close>

record LocationResult =
  result_location :: "Location option"
  location_error :: "string option"

record PhotoResult =
  result_photo :: "string option"
  photo_error :: "string option"

text \<open>\<^verbatim>\<open>LinkData\<close> of the link service.\<close>

record LinkData =
  link_userId :: string
  link_createdAt :: nat
  link_url :: string

section \<open>The platform\<close>

text \<open>The body of the reverse-geocoding answer, as far as \<^verbatim>\<open>getLocation\<close> reads it.\<close>

record Address =
  address_country :: "string option"
  address_country_code :: "string option"
  address_city :: "string option"
  address_town :: "string option"

datatype json = JsonNull | JsonObject "Address option"

type_synonym MediaStream = "nat list"

text \<open>A write to the realtime database: committed, refused with a message, or left queued.\<close>

datatype sdk_write = Written | Refused string | Queued

text \<open>
  One visit's platform: what each browser or SDK call answers.
  \<^item> \<open>navigator_userAgent\<close>, \<open>window_screen\<close>: the reads of \<^verbatim>\<open>getDeviceInfo\<close>; \<open>Inl\<close>
    when the read throws, \<open>Inr None\<close> when \<^verbatim>\<open>window.screen\<close> is \<^verbatim>\<open>undefined\<close>;
  \<^item> \<open>navigator_geolocation\<close>, \<open>navigator_mediaDevices\<close>: whether the two objects are
    defined (\<^verbatim>\<open>navigator.mediaDevices\<close> is not on an insecure origin);
  \<^item> \<open>getCurrentPosition\<close>: the position promise (latitude, longitude);
  \<^item> \<open>fetch_json\<close>: \<^verbatim>\<open>fetch(...)\<close> followed by \<^verbatim>\<open>response.json()\<close>;
  \<^item> \<open>getUserMedia\<close>: the camera stream, the list of its track ids;
  \<^item> \<open>loadedmetadata\<close>: whether the video element's metadata event fires;
  \<^item> \<open>getContext\<close>: whether \<^verbatim>\<open>canvas.getContext('2d')\<close> is non-null;
  \<^item> \<open>jpeg\<close>: what follows \<^verbatim>\<open>data:\<close> in the string \<^verbatim>\<open>canvas.toDataURL\<close> returns;
  \<^item> \<open>now_start\<close>, \<open>now_save\<close>: the two readings of \<^verbatim>\<open>Date.now()\<close>;
  \<^item> \<open>ref_throws\<close>: the message of the error \<^verbatim>\<open>ref(database, path)\<close> throws on a
    path it refuses, \<open>None\<close> on a path it accepts;
  \<^item> \<open>database_set\<close>: what becomes of \<^verbatim>\<open>set(ref, value)\<close>;
  \<^item> \<open>uuid\<close>, \<open>origin\<close>: \<^verbatim>\<open>uuidv4()\<close> and \<^verbatim>\<open>window.location.origin\<close>.
\<close>

record env =
  navigator_userAgent :: "thrown + string"
  window_screen :: "thrown + (nat \<times> nat) option"
  navigator_geolocation :: bool
  getCurrentPosition :: "(real \<times> real) promise"
  fetch_json :: "json promise"
  navigator_mediaDevices :: bool
  getUserMedia :: "MediaStream promise"
  loadedmetadata :: bool
  getContext :: bool
  jpeg :: string
  now_start :: nat
  now_save :: nat
  ref_throws :: "string \<Rightarrow> string option"
  database_set :: sdk_write
  uuid :: string
  origin :: string

text \<open>
  What a run does, in program order: the platform calls it makes and the assignments
  to the record it is filling. Console logging and the pure path construction of
  \<^verbatim>\<open>ref\<close> leave no event.
\<close>

datatype event =
    Call_getCurrentPosition
  | Call_fetch real real
  | Assign_location
  | Assign_errors_location
  | Call_getUserMedia
  | Call_play
  | Call_getContext
  | Call_drawImage
  | Call_toDataURL
  | Call_stop nat
  | Assign_photo
  | Assign_errors_photo
  | Assign_errors_save
  | Call_set_access string TrackingData
  | Call_set_link string LinkData
  | Call_onValue string

section \<open>Strings\<close>

text \<open>
  A regular expression that is an alternation of literals, run by \<^verbatim>\<open>exec\<close>: the match
  is at the leftmost position of the subject where some alternative matches, and there
  it is the first alternative that does.
\<close>

definition startsWith :: "string \<Rightarrow> string \<Rightarrow> bool" where
  "startsWith s a = (take (length a) s = a)"

fun regex_exec :: "string list \<Rightarrow> string \<Rightarrow> string option" where
  "regex_exec alts [] = find (startsWith []) alts"
| "regex_exec alts (c # cs) =
     (case find (startsWith (c # cs)) alts of
        Some a \<Rightarrow> Some a
      | None \<Rightarrow> regex_exec alts cs)"

definition regex_test :: "string list \<Rightarrow> string \<Rightarrow> bool" where
  "regex_test alts s = (regex_exec alts s \<noteq> None)"

text \<open>A non-negative integer in a template string: its decimal digits.\<close>

fun number_toString :: "nat \<Rightarrow> string" where
  "number_toString n =
     (if n < 10 then [''0123456789'' ! n]
      else number_toString (n div 10) @ [''0123456789'' ! (n mod 10)])"

declare number_toString.simps [simp del]

text \<open>\<^verbatim>\<open>toUpperCase\<close> on the ASCII letters (country codes are ASCII).\<close>

definition toUpperCase :: "string \<Rightarrow> string" where
  "toUpperCase s =
     map (\<lambda>c. let n = (of_char c :: nat) in if 97 \<le> n \<and> n \<le> 122 then char_of (n - 32) else c) s"

section \<open>getDeviceInfo\<close>

text \<open>
  The \<^verbatim>\<open>try\<close> block of \<^verbatim>\<open>getDeviceInfo\<close>, the same in both copies of the tracking
  service: it reads \<^verbatim>\<open>navigator.userAgent\<close>, then \<^verbatim>\<open>window.screen\<close>, and builds the
  record; \<^verbatim>\<open>screen.width\<close> on an undefined screen is a \<open>TypeError\<close>.
\<close>

definition Unknown :: Device where
  "Unknown = \<lparr>device_type = ''Unknown'', os = ''Unknown'', browser = ''Unknown'',
              screenResolution = ''Unknown''\<rparr>"

definition or_Unknown :: "string option \<Rightarrow> string" where
  "or_Unknown m = (case m of Some s \<Rightarrow> (if truthy s then s else ''Unknown'') | None \<Rightarrow> ''Unknown'')"

definition getDeviceInfo_try :: "env \<Rightarrow> thrown + Device" where
  "getDeviceInfo_try e =
     (case navigator_userAgent e of
        Inl err \<Rightarrow> Inl err
      | Inr userAgent \<Rightarrow>
          (case window_screen e of
             Inl err \<Rightarrow> Inl err
           | Inr None \<Rightarrow> Inl (TypeError ''Cannot read properties of undefined'')
           | Inr (Some (width, height)) \<Rightarrow>
               Inr \<lparr>device_type =
                      (if regex_test [''Mobile'', ''Tablet'', ''iPad'', ''iPhone'', ''Android''] userAgent
                       then ''Mobile'' else ''Desktop''),
                    os = or_Unknown (regex_exec [''Windows'', ''Mac'', ''Linux'', ''Android'', ''iOS''] userAgent),
                    browser = or_Unknown (regex_exec [''Chrome'', ''Firefox'', ''Safari'', ''Edge''] userAgent),
                    screenResolution = number_toString width @ ''x'' @ number_toString height\<rparr>))"

text \<open>
  The whole function: the \<^verbatim>\<open>catch\<close> block answers the all-\<open>Unknown\<close> record. The
  declared result type is \<^verbatim>\<open>TrackingData['device']\<close>, an optional field, hence \<open>option\<close>.
\<close>

definition getDeviceInfo :: "env \<Rightarrow> Device option" where
  "getDeviceInfo e =
     (case getDeviceInfo_try e of
        Inr d \<Rightarrow> Some d
      | Inl err \<Rightarrow> Some Unknown)"

section \<open>The database client\<close>

text \<open>
  \<^verbatim>\<open>ref(database, path)\<close>: the reference to a path, or the error the client throws on a
  path it refuses. \<^verbatim>\<open>set(ref, value)\<close>: the promise of the write.
\<close>

definition ref :: "env \<Rightarrow> string \<Rightarrow> thrown + string" where
  "ref e path = (case ref_throws e path of Some m \<Rightarrow> Inl (SdkError m) | None \<Rightarrow> Inr path)"

definition set_promise :: "env \<Rightarrow> unit promise" where
  "set_promise e =
     (case database_set e of
        Written \<Rightarrow> Resolved ()
      | Refused m \<Rightarrow> Rejected (SdkError m)
      | Queued \<Rightarrow> Pending)"

section \<open>The tracking service\<close>

text \<open>
  The repository holds two copies of the tracking service. The definitions named as the
  source names them (\<open>getLocation\<close>, \<open>capturePhoto\<close>, \<open>trackAccess\<close>) embed the copy that
  classifies failures and records \<^verbatim>\<open>errors.save\<close>; the definitions with the suffix
  \<open>_svc\<close> embed the copy at \<^verbatim>\<open>src/services/trackingService.ts\<close>, which the tracking page
  imports. \<open>getDeviceInfo\<close> and the two merge steps are the same text in both.
\<close>

subsection \<open>getLocation\<close>

text \<open>\<^verbatim>\<open>a || b\<close> on optional strings.\<close>

definition or_else :: "string option \<Rightarrow> string option \<Rightarrow> string option" where
  "or_else a b = (case a of Some s \<Rightarrow> (if truthy s then Some s else b) | None \<Rightarrow> b)"

text \<open>The location object of the enriched branch; \<open>address\<close> is \<^verbatim>\<open>data.address\<close>.\<close>

definition enriched :: "real \<Rightarrow> real \<Rightarrow> Address option \<Rightarrow> Location" where
  "enriched lat lon address =
     \<lparr>latitude = lat, longitude = lon,
      country = Option.bind address address_country,
      countryCode = map_option toUpperCase (Option.bind address address_country_code),
      city = or_else (Option.bind address address_city) (Option.bind address address_town)\<rparr>"

text \<open>The location object of the fallback branch: the coordinates and nothing else.\<close>

definition coordinates_only :: "real \<Rightarrow> real \<Rightarrow> Location" where
  "coordinates_only lat lon =
     \<lparr>latitude = lat, longitude = lon, country = None, countryCode = None, city = None\<rparr>"

text \<open>
  \<open>getLocation\<close>: the outer \<^verbatim>\<open>catch\<close> classifies the failure of the position request; the
  inner \<^verbatim>\<open>try\<close> covers the geocoding request, whose failure (a rejected \<^verbatim>\<open>fetch\<close> or
  \<^verbatim>\<open>json()\<close>, or a \<^verbatim>\<open>null\<close> body, on which \<^verbatim>\<open>data.address\<close> throws) falls back to the
  coordinates.
\<close>

text \<open>
  The position request of both copies, \<^verbatim>\<open>new Promise((resolve, reject) => navigator.geolocation.getCurrentPosition(resolve, reject, ...))\<close>:
  where \<^verbatim>\<open>navigator.geolocation\<close> is undefined the executor throws on the property
  read, no call is made, and the promise rejects with that \<open>TypeError\<close>.
\<close>

definition position_request :: "env \<Rightarrow> event list \<times> (real \<times> real) promise" where
  "position_request e =
     (if navigator_geolocation e
      then ([Call_getCurrentPosition], getCurrentPosition e)
      else ([], Rejected (TypeError ''Cannot read properties of undefined'')))"

definition getLocation :: "env \<Rightarrow> event list \<times> LocationResult promise" where
  "getLocation e =
     (case position_request e of
        (t, Pending) \<Rightarrow> (t, Pending)
      | (t, Rejected error) \<Rightarrow>
          (t,
           Resolved \<lparr>result_location = None,
                     location_error = Some
                       (if instanceof_Error error \<and> error_code error = Some 1
                        then ''Location access denied by user''
                        else ''Location not available or access denied'')\<rparr>)
      | (t, Resolved (lat, lon)) \<Rightarrow>
          (case fetch_json e of
             Pending \<Rightarrow> (t @ [Call_fetch lat lon], Pending)
           | Rejected geoError \<Rightarrow>
               (t @ [Call_fetch lat lon],
                Resolved \<lparr>result_location = Some (coordinates_only lat lon), location_error = None\<rparr>)
           | Resolved JsonNull \<Rightarrow>
               (t @ [Call_fetch lat lon],
                Resolved \<lparr>result_location = Some (coordinates_only lat lon), location_error = None\<rparr>)
           | Resolved (JsonObject address) \<Rightarrow>
               (t @ [Call_fetch lat lon],
                Resolved \<lparr>result_location = Some (enriched lat lon address), location_error = None\<rparr>)))"

text \<open>
  \<open>getLocation_svc\<close>: one \<^verbatim>\<open>try\<close> around both requests and one message for every
  failure.
\<close>

definition getLocation_svc :: "env \<Rightarrow> event list \<times> LocationResult promise" where
  "getLocation_svc e =
     (case position_request e of
        (t, Pending) \<Rightarrow> (t, Pending)
      | (t, Rejected error) \<Rightarrow>
          (t,
           Resolved \<lparr>result_location = None, location_error = Some ''Location access denied''\<rparr>)
      | (t, Resolved (lat, lon)) \<Rightarrow>
          (case fetch_json e of
             Pending \<Rightarrow> (t @ [Call_fetch lat lon], Pending)
           | Rejected error \<Rightarrow>
               (t @ [Call_fetch lat lon],
                Resolved \<lparr>result_location = None, location_error = Some ''Location access denied''\<rparr>)
           | Resolved JsonNull \<Rightarrow>
               (t @ [Call_fetch lat lon],
                Resolved \<lparr>result_location = None, location_error = Some ''Location access denied''\<rparr>)
           | Resolved (JsonObject address) \<Rightarrow>
               (t @ [Call_fetch lat lon],
                Resolved \<lparr>result_location = Some (enriched lat lon address), location_error = None\<rparr>)))"

subsection \<open>capturePhoto\<close>

text \<open>
  \<^verbatim>\<open>canvas.toDataURL('image/jpeg')\<close> answers a \<^verbatim>\<open>data:\<close> URL, \<^verbatim>\<open>data:,\<close> for a canvas
  without pixels.
\<close>

definition toDataURL :: "env \<Rightarrow> string" where
  "toDataURL e = ''data:'' @ jpeg e"

text \<open>
  The \<^verbatim>\<open>onloadedmetadata\<close> handler, the same in both copies: the events up to the call of
  \<^verbatim>\<open>resolve\<close> and the value resolved with. The branch with a drawing context stops every
  track of the stream; the branch without one resolves at once.
\<close>

definition onloadedmetadata :: "env \<Rightarrow> MediaStream \<Rightarrow> event list \<times> PhotoResult" where
  "onloadedmetadata e stream =
     (if getContext e
      then ([Call_play, Call_getContext, Call_drawImage, Call_toDataURL] @ map Call_stop stream,
            \<lparr>result_photo = Some (toDataURL e), photo_error = None\<rparr>)
      else ([Call_play, Call_getContext],
            \<lparr>result_photo = None, photo_error = Some ''Could not get canvas context''\<rparr>))"

text \<open>
  The camera request of both copies, \<^verbatim>\<open>await navigator.mediaDevices.getUserMedia({ video: true })\<close>:
  where \<^verbatim>\<open>navigator.mediaDevices\<close> is undefined (an insecure origin) the property read
  throws a \<open>TypeError\<close> inside the \<^verbatim>\<open>try\<close> and no call is made.
\<close>

definition media_request :: "env \<Rightarrow> event list \<times> MediaStream promise" where
  "media_request e =
     (if navigator_mediaDevices e
      then ([Call_getUserMedia], getUserMedia e)
      else ([], Rejected (TypeError ''Cannot read properties of undefined'')))"

text \<open>
  \<open>capturePhoto\<close>: the promise it returns settles only from the handler, so it stays
  pending when the metadata event never fires.
\<close>

definition capturePhoto :: "env \<Rightarrow> event list \<times> PhotoResult promise" where
  "capturePhoto e =
     (case media_request e of
        (t, Pending) \<Rightarrow> (t, Pending)
      | (t, Rejected error) \<Rightarrow>
          (t,
           Resolved \<lparr>result_photo = None,
                     photo_error = Some
                       (if instanceof_Error error \<and> error_name error = Some ''NotAllowedError''
                        then ''Camera access denied by user''
                        else ''Camera not available or access denied'')\<rparr>)
      | (t, Resolved stream) \<Rightarrow>
          (if loadedmetadata e
           then (case onloadedmetadata e stream of
                   (h, r) \<Rightarrow> (t @ h, Resolved r))
           else (t, Pending)))"

definition capturePhoto_svc :: "env \<Rightarrow> event list \<times> PhotoResult promise" where
  "capturePhoto_svc e =
     (case media_request e of
        (t, Pending) \<Rightarrow> (t, Pending)
      | (t, Rejected error) \<Rightarrow>
          (t,
           Resolved \<lparr>result_photo = None, photo_error = Some ''Camera access denied''\<rparr>)
      | (t, Resolved stream) \<Rightarrow>
          (if loadedmetadata e
           then (case onloadedmetadata e stream of
                   (h, r) \<Rightarrow> (t @ h, Resolved r))
           else (t, Pending)))"

subsection \<open>trackAccess\<close>

text \<open>
  The two merge steps, the same in both copies: \<^verbatim>\<open>if (r.location) ... else if (r.error) ...\<close>
  and \<^verbatim>\<open>if (r.photo) ... else if (r.error) ...\<close>. An object is truthy whenever it is there; a
  string is truthy when it is not empty.
\<close>

definition merge_location :: "LocationResult \<Rightarrow> TrackingData \<Rightarrow> event list \<times> TrackingData" where
  "merge_location locationResult trackingData =
     (case result_location locationResult of
        Some l \<Rightarrow> ([Assign_location], trackingData\<lparr>location := Some l\<rparr>)
      | None \<Rightarrow>
          (if (case location_error locationResult of Some m \<Rightarrow> truthy m | None \<Rightarrow> False)
           then ([Assign_errors_location],
                 trackingData\<lparr>errors := (errors trackingData)
                    \<lparr>errors_location := location_error locationResult\<rparr>\<rparr>)
           else ([], trackingData)))"

definition merge_photo :: "PhotoResult \<Rightarrow> TrackingData \<Rightarrow> event list \<times> TrackingData" where
  "merge_photo photoResult trackingData =
     (if (case result_photo photoResult of Some p \<Rightarrow> truthy p | None \<Rightarrow> False)
      then ([Assign_photo], trackingData\<lparr>photo := result_photo photoResult\<rparr>)
      else if (case photo_error photoResult of Some m \<Rightarrow> truthy m | None \<Rightarrow> False)
      then ([Assign_errors_photo],
            trackingData\<lparr>errors := (errors trackingData)
               \<lparr>errors_photo := photo_error photoResult\<rparr>\<rparr>)
      else ([], trackingData))"

text \<open>The record both copies start from.\<close>

definition initial :: "env \<Rightarrow> TrackingData" where
  "initial e =
     \<lparr>timestamp = now_start e, ip = None, location = None, device = getDeviceInfo e,
      photo = None,
      errors = \<lparr>errors_location = None, errors_photo = None, errors_save = None\<rparr>\<rparr>"

definition access_path :: "env \<Rightarrow> string \<Rightarrow> string" where
  "access_path e linkId = ''accesses/'' @ linkId @ ''/'' @ number_toString (now_save e)"

text \<open>
  The inner \<^verbatim>\<open>try\<close> of \<open>trackAccess\<close>: the write, and on its failure (a throwing
  \<^verbatim>\<open>ref\<close> or a rejected \<^verbatim>\<open>set\<close>) the assignment of \<^verbatim>\<open>errors.save\<close>.
\<close>

definition save_failed :: "TrackingData \<Rightarrow> TrackingData" where
  "save_failed trackingData =
     trackingData\<lparr>errors := (errors trackingData)
        \<lparr>errors_save := Some ''Failed to save tracking data''\<rparr>\<rparr>"

definition save :: "env \<Rightarrow> string \<Rightarrow> TrackingData \<Rightarrow> event list \<times> TrackingData promise" where
  "save e linkId trackingData =
     (case ref e (access_path e linkId) of
        Inl saveError \<Rightarrow> ([Assign_errors_save], Resolved (save_failed trackingData))
      | Inr accessRef \<Rightarrow>
          (case set_promise e of
             Resolved u \<Rightarrow> ([Call_set_access accessRef trackingData], Resolved trackingData)
           | Rejected saveError \<Rightarrow>
               ([Call_set_access accessRef trackingData, Assign_errors_save],
                Resolved (save_failed trackingData))
           | Pending \<Rightarrow> ([Call_set_access accessRef trackingData], Pending)))"

text \<open>What the outer \<^verbatim>\<open>catch\<close> returns: a copy of the record as it stands, with \<^verbatim>\<open>errors.save\<close>.\<close>

definition unexpected :: "TrackingData \<Rightarrow> TrackingData" where
  "unexpected trackingData =
     trackingData\<lparr>errors := (errors trackingData)
        \<lparr>errors_save := Some ''Unexpected error during tracking''\<rparr>\<rparr>"

definition trackAccess :: "env \<Rightarrow> string \<Rightarrow> event list \<times> TrackingData promise" where
  "trackAccess e linkId =
     (case getLocation e of
        (t1, Pending) \<Rightarrow> (t1, Pending)
      | (t1, Rejected error) \<Rightarrow> (t1, Resolved (unexpected (initial e)))
      | (t1, Resolved locationResult) \<Rightarrow>
          (case merge_location locationResult (initial e) of
             (m1, td1) \<Rightarrow>
               (case capturePhoto e of
                  (t2, Pending) \<Rightarrow> (t1 @ m1 @ t2, Pending)
                | (t2, Rejected error) \<Rightarrow> (t1 @ m1 @ t2, Resolved (unexpected td1))
                | (t2, Resolved photoResult) \<Rightarrow>
                    (case merge_photo photoResult td1 of
                       (m2, td2) \<Rightarrow>
                         (case save e linkId td2 of
                            (t3, r) \<Rightarrow> (t1 @ m1 @ t2 @ m2 @ t3, r))))))"

text \<open>
  \<open>trackAccess_svc\<close>: one \<^verbatim>\<open>try\<close> around everything, whose \<^verbatim>\<open>catch\<close> throws the error
  again.
\<close>

definition trackAccess_svc :: "env \<Rightarrow> string \<Rightarrow> event list \<times> TrackingData promise" where
  "trackAccess_svc e linkId =
     (case getLocation_svc e of
        (t1, Pending) \<Rightarrow> (t1, Pending)
      | (t1, Rejected error) \<Rightarrow> (t1, Rejected error)
      | (t1, Resolved locationResult) \<Rightarrow>
          (case merge_location locationResult (initial e) of
             (m1, td1) \<Rightarrow>
               (case capturePhoto_svc e of
                  (t2, Pending) \<Rightarrow> (t1 @ m1 @ t2, Pending)
                | (t2, Rejected error) \<Rightarrow> (t1 @ m1 @ t2, Rejected error)
                | (t2, Resolved photoResult) \<Rightarrow>
                    (case merge_photo photoResult td1 of
                       (m2, td2) \<Rightarrow>
                         (case ref e (access_path e linkId) of
                            Inl error \<Rightarrow> (t1 @ m1 @ t2 @ m2, Rejected error)
                          | Inr accessRef \<Rightarrow>
                              (case set_promise e of
                                 Resolved u \<Rightarrow>
                                   (t1 @ m1 @ t2 @ m2 @ [Call_set_access accessRef td2], Resolved td2)
                               | Rejected error \<Rightarrow>
                                   (t1 @ m1 @ t2 @ m2 @ [Call_set_access accessRef td2], Rejected error)
                               | Pending \<Rightarrow>
                                   (t1 @ m1 @ t2 @ m2 @ [Call_set_access accessRef td2], Pending)))))))"

section \<open>The link service\<close>

text \<open>
  \<open>generateLink\<close>: the guard on an empty \<^verbatim>\<open>userId\<close> comes first; \<^verbatim>\<open>ref\<close> is called
  outside the \<^verbatim>\<open>try\<close>, the write inside it, and the \<^verbatim>\<open>catch\<close> throws the error again.
\<close>

definition generateLink :: "env \<Rightarrow> string \<Rightarrow> event list \<times> string promise" where
  "generateLink e userId =
     (if \<not> truthy userId
      then ([], Rejected (Error ''User must be authenticated to generate links''))
      else
        (let uniqueId = uuid e;
             linkId = uniqueId @ ''_'' @ userId
         in case ref e (''links/'' @ linkId) of
              Inl error \<Rightarrow> ([], Rejected error)
            | Inr linkRef \<Rightarrow>
                (let baseUrl = origin e;
                     linkData = \<lparr>link_userId = userId, link_createdAt = now_start e,
                                 link_url = baseUrl @ ''/track/'' @ linkId\<rparr>
                 in case set_promise e of
                      Resolved u \<Rightarrow> ([Call_set_link linkRef linkData], Resolved (link_url linkData))
                    | Rejected error \<Rightarrow> ([Call_set_link linkRef linkData], Rejected error)
                    | Pending \<Rightarrow> ([Call_set_link linkRef linkData], Pending))))"

text \<open>
  The store as \<open>validateLink\<close> sees it: the value at each path, if any. \<^verbatim>\<open>onValue\<close>
  registers the listener and returns the function that removes it; what the listener
  returns when a snapshot is delivered goes nowhere.
\<close>

type_synonym database = "string \<Rightarrow> LinkData option"

datatype js_value = Boolean bool | Unsubscribe string

definition snapshot_exists :: "LinkData option \<Rightarrow> bool" where
  "snapshot_exists snapshot = (snapshot \<noteq> None)"

definition onValue :: "database \<Rightarrow> string \<Rightarrow> (LinkData option \<Rightarrow> bool) \<Rightarrow> js_value" where
  "onValue db path callback = (let delivered = callback (db path) in Unsubscribe path)"

text \<open>
  \<open>validateLink\<close>: \<^verbatim>\<open>await\<close> on a value that is not a promise gives the value, so
  \<^verbatim>\<open>snapshot\<close> is what \<^verbatim>\<open>onValue\<close> returned.
\<close>

definition validateLink :: "env \<Rightarrow> database \<Rightarrow> string \<Rightarrow> event list \<times> js_value promise" where
  "validateLink e db linkId =
     (case ref e (''links/'' @ linkId) of
        Inl error \<Rightarrow> ([], Resolved (Boolean False))
      | Inr linkRef \<Rightarrow>
          (let snapshot = onValue db linkRef (\<lambda>snapshot. snapshot_exists snapshot)
           in ([Call_onValue linkRef], Resolved snapshot)))"

section \<open>Reading a run\<close>

text \<open>The record after both merge steps, before the write.\<close>

definition merged :: "LocationResult \<Rightarrow> PhotoResult \<Rightarrow> env \<Rightarrow> TrackingData" where
  "merged lr pr e = snd (merge_photo pr (snd (merge_location lr (initial e))))"

text \<open>
  The events of the location step (the position request, the geocoding request and the
  assignment of their result) and those of the photo step (the camera request, the
  handler's calls and the assignment of its result).
\<close>

fun location_step :: "event \<Rightarrow> bool" where
  "location_step Call_getCurrentPosition = True"
| "location_step (Call_fetch lat lon) = True"
| "location_step Assign_location = True"
| "location_step Assign_errors_location = True"
| "location_step ev = False"

fun photo_step :: "event \<Rightarrow> bool" where
  "photo_step Call_getUserMedia = True"
| "photo_step Call_play = True"
| "photo_step Call_getContext = True"
| "photo_step Call_drawImage = True"
| "photo_step Call_toDataURL = True"
| "photo_step (Call_stop track) = True"
| "photo_step Assign_photo = True"
| "photo_step Assign_errors_photo = True"
| "photo_step ev = False"

section \<open>Scenarios\<close>

text \<open>
  A visit on an Android phone: the position is granted at latitude 10 and longitude 20,
  the geocoding request fails, the visitor denies the camera, the write succeeds. The
  other scenarios change one answer of the platform each; \<open>visit_insecure\<close> is the same
  visit on an insecure origin, where \<^verbatim>\<open>navigator.mediaDevices\<close> is undefined.
\<close>

definition visit :: env where
  "visit =
     \<lparr>navigator_userAgent = Inr ''Mozilla/5.0 (Linux; Android 13) Chrome/120.0 Mobile'',
      window_screen = Inr (Some (412, 915)),
      navigator_geolocation = True,
      getCurrentPosition = Resolved (10, 20),
      fetch_json = Rejected (TypeError ''Failed to fetch''),
      navigator_mediaDevices = True,
      getUserMedia = Rejected (DOMException ''NotAllowedError'' 0),
      loadedmetadata = True,
      getContext = True,
      jpeg = ''image/jpeg;base64,/9j/4AAQ'',
      now_start = 1700000000000,
      now_save = 1700000000750,
      ref_throws = (\<lambda>path. None),
      database_set = Written,
      uuid = ''3b241101-e2bb'',
      origin = ''https://example.org''\<rparr>"

definition visit_record :: TrackingData where
  "visit_record =
     \<lparr>timestamp = 1700000000000, ip = None,
      location = Some \<lparr>latitude = 10, longitude = 20, country = None,
                       countryCode = None, city = None\<rparr>,
      device = Some \<lparr>device_type = ''Mobile'', os = ''Linux'', browser = ''Chrome'',
                     screenResolution = ''412x915''\<rparr>,
      photo = None,
      errors = \<lparr>errors_location = None,
                errors_photo = Some ''Camera access denied by user'',
                errors_save = None\<rparr>\<rparr>"

definition visit_no_screen :: env where
  "visit_no_screen = visit\<lparr>window_screen := Inr None\<rparr>"

definition visit_write_refused :: env where
  "visit_write_refused = visit\<lparr>database_set := Refused ''PERMISSION_DENIED''\<rparr>"

definition visit_no_context :: env where
  "visit_no_context = visit\<lparr>getUserMedia := Resolved [0], getContext := False\<rparr>"

definition visit_insecure :: env where
  "visit_insecure = visit\<lparr>navigator_mediaDevices := False\<rparr>"

definition visit_location_denied :: env where
  "visit_location_denied = visit\<lparr>getCurrentPosition := Rejected (GeolocationPositionError 1)\<rparr>"

definition store_with_link :: database where
  "store_with_link =
     (\<lambda>path. if path = ''links/abc123_user1''
             then Some \<lparr>link_userId = ''user1'', link_createdAt = 1699999999000,
                         link_url = ''https://example.org/track/abc123_user1''\<rparr>
             else None)"

definition store_without_link :: database where
  "store_without_link = (\<lambda>path. None)"

section \<open>The acquisition steps\<close>

text \<open>
  Neither step ever rejects, and a step that resolves carries either its data or a
  non-empty message, never both and never neither. The same holds for the copies in
  \<^verbatim>\<open>src/services/trackingService.ts\<close>.
\<close>

lemma getLocation_never_rejects: "snd (getLocation e) \<noteq> Rejected err"
  by (simp add: getLocation_def position_request_def split: promise.split prod.split json.split)

lemma getLocation_resolved:
  assumes "snd (getLocation e) = Resolved r"
  shows "(\<exists>l. result_location r = Some l \<and> location_error r = None) \<or>
         (\<exists>m. result_location r = None \<and> location_error r = Some m \<and> truthy m)"
  using assms
  by (auto simp add: getLocation_def position_request_def truthy_def split: promise.splits prod.splits json.splits if_splits)

lemma capturePhoto_never_rejects: "snd (capturePhoto e) \<noteq> Rejected err"
  by (simp add: capturePhoto_def media_request_def split: promise.split prod.split)

lemma capturePhoto_resolved:
  assumes "snd (capturePhoto e) = Resolved r"
  shows "(\<exists>p. result_photo r = Some p \<and> truthy p \<and> photo_error r = None) \<or>
         (\<exists>m. result_photo r = None \<and> photo_error r = Some m \<and> truthy m)"
  using assms
  by (auto simp add: capturePhoto_def media_request_def onloadedmetadata_def toDataURL_def truthy_def
      split: promise.splits prod.splits if_splits)

lemma getLocation_svc_never_rejects: "snd (getLocation_svc e) \<noteq> Rejected err"
  by (simp add: getLocation_svc_def position_request_def split: promise.split prod.split json.split)

lemma getLocation_svc_resolved:
  assumes "snd (getLocation_svc e) = Resolved r"
  shows "(\<exists>l. result_location r = Some l \<and> location_error r = None) \<or>
         (\<exists>m. result_location r = None \<and> location_error r = Some m \<and> truthy m)"
  using assms
  by (auto simp add: getLocation_svc_def position_request_def truthy_def split: promise.splits prod.splits json.splits)

lemma capturePhoto_svc_never_rejects: "snd (capturePhoto_svc e) \<noteq> Rejected err"
  by (simp add: capturePhoto_svc_def media_request_def split: promise.split prod.split)

lemma capturePhoto_svc_resolved:
  assumes "snd (capturePhoto_svc e) = Resolved r"
  shows "(\<exists>p. result_photo r = Some p \<and> truthy p \<and> photo_error r = None) \<or>
         (\<exists>m. result_photo r = None \<and> photo_error r = Some m \<and> truthy m)"
  using assms
  by (auto simp add: capturePhoto_svc_def media_request_def onloadedmetadata_def toDataURL_def truthy_def
      split: promise.splits prod.splits if_splits)

text \<open>What the two merge steps leave in the record.\<close>

lemma merged_location:
  assumes "(\<exists>l. result_location lr = Some l \<and> location_error lr = None) \<or>
         (\<exists>m. result_location lr = None \<and> location_error lr = Some m \<and> truthy m)"
  shows "location (merged lr pr e) = result_location lr \<and>
         errors_location (errors (merged lr pr e)) = location_error lr"
  using assms
  by (auto simp add: merged_def merge_location_def merge_photo_def initial_def)

lemma merged_photo:
  assumes "(\<exists>p. result_photo pr = Some p \<and> truthy p \<and> photo_error pr = None) \<or>
         (\<exists>m. result_photo pr = None \<and> photo_error pr = Some m \<and> truthy m)"
  shows "photo (merged lr pr e) = result_photo pr \<and>
         errors_photo (errors (merged lr pr e)) = photo_error pr"
  using assms
  by (auto simp add: merged_def merge_location_def merge_photo_def initial_def split: option.splits)

text \<open>A run that returns has seen both steps resolve; what it returns is the merged
  record, with \<^verbatim>\<open>errors.save\<close> added when the write failed.\<close>

lemma trackAccess_resolved:
  assumes "snd (trackAccess e linkId) = Resolved r"
  shows "\<exists>lr pr. snd (getLocation e) = Resolved lr \<and> snd (capturePhoto e) = Resolved pr \<and>
           (r = merged lr pr e \<or> r = save_failed (merged lr pr e))"
proof -
  obtain t1 p1 where g: "getLocation e = (t1, p1)" by (cases "getLocation e")
  obtain t2 p2 where c: "capturePhoto e = (t2, p2)" by (cases "capturePhoto e")
  from getLocation_never_rejects [of e] g have nr1: "\<And>err. p1 \<noteq> Rejected err" by simp
  from capturePhoto_never_rejects [of e] c have nr2: "\<And>err. p2 \<noteq> Rejected err" by simp
  from assms g nr1 obtain lr where lr: "p1 = Resolved lr"
    by (cases p1) (auto simp add: trackAccess_def)
  from assms g c lr nr2 obtain pr where pr: "p2 = Resolved pr"
    by (cases p2) (auto simp add: trackAccess_def split: prod.splits)
  from assms g c lr pr have "r = merged lr pr e \<or> r = save_failed (merged lr pr e)"
    by (auto simp add: trackAccess_def merged_def save_def split: prod.splits sum.splits promise.splits)
  with g c lr pr show ?thesis by simp
qed

lemma save_outcome:
  "snd (save e linkId td) =
     (if ref_throws e (access_path e linkId) \<noteq> None then Resolved (save_failed td)
      else case database_set e of
             Written \<Rightarrow> Resolved td
           | Refused m \<Rightarrow> Resolved (save_failed td)
           | Queued \<Rightarrow> Pending)"
  by (simp add: save_def ref_def set_promise_def split: option.split sdk_write.split)

lemma trackAccess_outcome:
  assumes "snd (getLocation e) = Resolved lr" and "snd (capturePhoto e) = Resolved pr"
  shows "snd (trackAccess e linkId) = snd (save e linkId (merged lr pr e))"
proof -
  obtain t1 where g: "getLocation e = (t1, Resolved lr)"
    using assms(1) by (cases "getLocation e") simp
  obtain t2 where c: "capturePhoto e = (t2, Resolved pr)"
    using assms(2) by (cases "capturePhoto e") simp
  show ?thesis
    by (simp add: trackAccess_def g c merged_def split: prod.split)
qed

text \<open>The events each part of a run leaves.\<close>

lemma getLocation_events: "ev \<in> set (fst (getLocation e)) \<Longrightarrow> location_step ev"
  by (auto simp add: getLocation_def position_request_def
      split: promise.splits prod.splits json.splits if_splits)

lemma capturePhoto_events: "ev \<in> set (fst (capturePhoto e)) \<Longrightarrow> photo_step ev"
  by (auto simp add: capturePhoto_def media_request_def onloadedmetadata_def split: promise.splits prod.splits if_splits)

lemma capturePhoto_pending: "snd (capturePhoto e) = Pending \<Longrightarrow> fst (capturePhoto e) \<noteq> []"
  by (auto simp add: capturePhoto_def media_request_def split: promise.splits prod.splits if_splits)

lemma getLocation_svc_events: "ev \<in> set (fst (getLocation_svc e)) \<Longrightarrow> location_step ev"
  by (auto simp add: getLocation_svc_def position_request_def
      split: promise.splits prod.splits json.splits if_splits)

lemma capturePhoto_svc_events: "ev \<in> set (fst (capturePhoto_svc e)) \<Longrightarrow> photo_step ev"
  by (auto simp add: capturePhoto_svc_def media_request_def onloadedmetadata_def
      split: promise.splits prod.splits if_splits)

lemma capturePhoto_svc_pending:
  "snd (capturePhoto_svc e) = Pending \<Longrightarrow> fst (capturePhoto_svc e) \<noteq> []"
  by (auto simp add: capturePhoto_svc_def media_request_def
      split: promise.splits prod.splits if_splits)

lemma merge_location_events:
  assumes "(\<exists>l. result_location lr = Some l \<and> location_error lr = None) \<or>
         (\<exists>m. result_location lr = None \<and> location_error lr = Some m \<and> truthy m)"
  shows "fst (merge_location lr td) = [Assign_location] \<or>
         fst (merge_location lr td) = [Assign_errors_location]"
  using assms by (auto simp add: merge_location_def)

lemma merge_photo_assigns:
  assumes "(\<exists>p. result_photo pr = Some p \<and> truthy p \<and> photo_error pr = None) \<or>
         (\<exists>m. result_photo pr = None \<and> photo_error pr = Some m \<and> truthy m)"
  shows "fst (merge_photo pr td) = [Assign_photo] \<or>
         fst (merge_photo pr td) = [Assign_errors_photo]"
  using assms by (auto simp add: merge_photo_def)

lemma merge_photo_events: "ev \<in> set (fst (merge_photo pr td)) \<Longrightarrow> photo_step ev"
  by (auto simp add: merge_photo_def split: if_splits)

lemma save_events: "ev \<in> set (fst (save e linkId td)) \<Longrightarrow> \<not> location_step ev"
  by (auto simp add: save_def split: sum.splits promise.splits)

lemma photo_not_location: "photo_step ev \<Longrightarrow> \<not> location_step ev"
  by (cases ev) simp_all

section \<open>The scenario, evaluated\<close>

lemma getDeviceInfo_visit:
  "getDeviceInfo visit =
     Some \<lparr>device_type = ''Mobile'', os = ''Linux'', browser = ''Chrome'',
           screenResolution = ''412x915''\<rparr>"
  by (simp add: visit_def getDeviceInfo_def getDeviceInfo_try_def regex_test_def
      startsWith_def or_Unknown_def truthy_def number_toString.simps)

lemma getLocation_visit:
  "getLocation visit =
     ([Call_getCurrentPosition, Call_fetch 10 20],
      Resolved \<lparr>result_location = Some (coordinates_only 10 20), location_error = None\<rparr>)"
  by (simp add: visit_def getLocation_def position_request_def)

lemma capturePhoto_visit:
  "capturePhoto visit =
     ([Call_getUserMedia],
      Resolved \<lparr>result_photo = None, photo_error = Some ''Camera access denied by user''\<rparr>)"
  by (simp add: visit_def capturePhoto_def media_request_def)

lemma ref_visit: "ref visit path = Inr path"
  by (simp add: ref_def visit_def)

lemma set_promise_visit: "set_promise visit = Resolved ()"
  by (simp add: set_promise_def visit_def)

lemma access_path_visit:
  "access_path visit ''abc123_user1'' = ''accesses/abc123_user1/1700000000750''"
  by (simp add: access_path_def visit_def number_toString.simps)

lemma initial_visit:
  "initial visit =
     \<lparr>timestamp = 1700000000000, ip = None, location = None,
      device = Some \<lparr>device_type = ''Mobile'', os = ''Linux'', browser = ''Chrome'',
                     screenResolution = ''412x915''\<rparr>,
      photo = None,
      errors = \<lparr>errors_location = None, errors_photo = None, errors_save = None\<rparr>\<rparr>"
  by (simp add: initial_def getDeviceInfo_visit) (simp add: visit_def)

lemma trackAccess_visit:
  "trackAccess visit ''abc123_user1'' =
     ([Call_getCurrentPosition, Call_fetch 10 20, Assign_location,
       Call_getUserMedia, Assign_errors_photo,
       Call_set_access ''accesses/abc123_user1/1700000000750'' visit_record],
      Resolved visit_record)"
  by (simp add: trackAccess_def getLocation_visit capturePhoto_visit merge_location_def
      merge_photo_def initial_visit truthy_def coordinates_only_def
      save_def ref_visit set_promise_visit access_path_visit visit_record_def)

lemma visit_run: "snd (trackAccess visit ''abc123_user1'') = Resolved visit_record"
  by (simp add: trackAccess_visit)

section \<open>Claims\<close>

subsection \<open>C1: location and photo are each either present or reported\<close>

text \<open>
  C1. For every run of \<open>trackAccess\<close> that completes, the returned record has exactly one
  of \<^verbatim>\<open>location\<close> and \<^verbatim>\<open>errors.location\<close>, and exactly one of \<^verbatim>\<open>photo\<close> and
  \<^verbatim>\<open>errors.photo\<close>: never both, never neither.
\<close>

theorem trackAccess_exactly_one:
  assumes "snd (trackAccess e linkId) = Resolved r"
  shows "(location r \<noteq> None) \<noteq> (errors_location (errors r) \<noteq> None) \<and>
         (photo r \<noteq> None) \<noteq> (errors_photo (errors r) \<noteq> None)"
proof -
  from trackAccess_resolved [OF assms] obtain lr pr where
    lr: "snd (getLocation e) = Resolved lr" and pr: "snd (capturePhoto e) = Resolved pr" and
    r: "r = merged lr pr e \<or> r = save_failed (merged lr pr e)" by blast
  note gl = getLocation_resolved [OF lr]
  note cp = capturePhoto_resolved [OF pr]
  note l = merged_location [OF gl, of pr e]
  note p = merged_photo [OF cp, of lr e]
  from r have same:
    "location r = location (merged lr pr e) \<and> photo r = photo (merged lr pr e) \<and>
     errors_location (errors r) = errors_location (errors (merged lr pr e)) \<and>
     errors_photo (errors r) = errors_photo (errors (merged lr pr e))"
    by (elim disjE) (simp_all add: save_failed_def)
  with l p have fields:
    "location r = result_location lr" "errors_location (errors r) = location_error lr"
    "photo r = result_photo pr" "errors_photo (errors r) = photo_error pr"
    by simp_all
  from gl have "(result_location lr \<noteq> None) \<noteq> (location_error lr \<noteq> None)" by auto
  moreover from cp have "(result_photo pr \<noteq> None) \<noteq> (photo_error pr \<noteq> None)" by auto
  ultimately show ?thesis using fields by simp
qed

text \<open>The scenario completes, with a location and a reported photo failure.\<close>

theorem trackAccess_exactly_one_witness:
  "snd (trackAccess visit ''abc123_user1'') = Resolved visit_record \<and>
   (location visit_record \<noteq> None) \<noteq> (errors_location (errors visit_record) \<noteq> None) \<and>
   (photo visit_record \<noteq> None) \<noteq> (errors_photo (errors visit_record) \<noteq> None)"
  using trackAccess_exactly_one [OF visit_run] visit_run by simp

text \<open>The copy in \<^verbatim>\<open>src/services/trackingService.ts\<close> keeps the same invariant.\<close>

lemma trackAccess_svc_resolved:
  assumes "snd (trackAccess_svc e linkId) = Resolved r"
  shows "\<exists>lr pr. snd (getLocation_svc e) = Resolved lr \<and>
           snd (capturePhoto_svc e) = Resolved pr \<and> r = merged lr pr e"
proof -
  obtain t1 p1 where g: "getLocation_svc e = (t1, p1)" by (cases "getLocation_svc e")
  obtain t2 p2 where c: "capturePhoto_svc e = (t2, p2)" by (cases "capturePhoto_svc e")
  from assms g obtain lr where lr: "p1 = Resolved lr"
    by (cases p1) (auto simp add: trackAccess_svc_def)
  from assms g c lr obtain pr where pr: "p2 = Resolved pr"
    by (cases p2) (auto simp add: trackAccess_svc_def split: prod.splits)
  from assms g c lr pr have "r = merged lr pr e"
    by (auto simp add: trackAccess_svc_def merged_def
        split: prod.splits sum.splits promise.splits)
  with g c lr pr show ?thesis by simp
qed

lemma trackAccess_svc_exactly_one:
  assumes "snd (trackAccess_svc e linkId) = Resolved r"
  shows "(location r \<noteq> None) \<noteq> (errors_location (errors r) \<noteq> None) \<and>
         (photo r \<noteq> None) \<noteq> (errors_photo (errors r) \<noteq> None)"
proof -
  from trackAccess_svc_resolved [OF assms] obtain lr pr where
    lr: "snd (getLocation_svc e) = Resolved lr" and
    pr: "snd (capturePhoto_svc e) = Resolved pr" and
    r: "r = merged lr pr e" by blast
  note gl = getLocation_svc_resolved [OF lr]
  note cp = capturePhoto_svc_resolved [OF pr]
  from gl have "(result_location lr \<noteq> None) \<noteq> (location_error lr \<noteq> None)" by auto
  moreover from cp have "(result_photo pr \<noteq> None) \<noteq> (photo_error pr \<noteq> None)" by auto
  ultimately show ?thesis
    using merged_location [OF gl, of pr e] merged_photo [OF cp, of lr e] r by simp
qed

subsection \<open>C2: trackAccess never raises\<close>

text \<open>
  The copy that records \<^verbatim>\<open>errors.save\<close> does what the claim says: it never rejects; it
  returns a record whenever both steps and the write settle; and when the write fails
  the record carries \<^verbatim>\<open>errors.save\<close> together with the location, the photo, the device
  and the timestamp collected before.
\<close>

lemma trackAccess_never_rejects: "snd (trackAccess e linkId) \<noteq> Rejected err"
proof -
  obtain t1 p1 where g: "getLocation e = (t1, p1)" by (cases "getLocation e")
  obtain t2 p2 where c: "capturePhoto e = (t2, p2)" by (cases "capturePhoto e")
  from getLocation_never_rejects [of e] g have nr1: "\<And>x. p1 \<noteq> Rejected x" by simp
  from capturePhoto_never_rejects [of e] c have nr2: "\<And>x. p2 \<noteq> Rejected x" by simp
  show ?thesis
  proof (cases p1)
    case Pending
    with g show ?thesis by (simp add: trackAccess_def)
  next
    case (Rejected x)
    with nr1 [of x] show ?thesis by simp
  next
    case lr: (Resolved lr)
    show ?thesis
    proof (cases p2)
      case Pending
      with g c lr show ?thesis by (simp add: trackAccess_def split: prod.split)
    next
      case (Rejected x)
      with nr2 [of x] show ?thesis by simp
    next
      case (Resolved pr)
      with g c lr show ?thesis
        by (simp add: trackAccess_def save_def split: prod.split sum.split promise.split)
    qed
  qed
qed

lemma trackAccess_returns:
  assumes "snd (getLocation e) \<noteq> Pending" and "snd (capturePhoto e) \<noteq> Pending"
    and "database_set e \<noteq> Queued"
  shows "\<exists>r. snd (trackAccess e linkId) = Resolved r"
proof -
  from assms(1) getLocation_never_rejects [of e] obtain lr where
    lr: "snd (getLocation e) = Resolved lr" by (cases "snd (getLocation e)") auto
  from assms(2) capturePhoto_never_rejects [of e] obtain pr where
    pr: "snd (capturePhoto e) = Resolved pr" by (cases "snd (capturePhoto e)") auto
  from assms(3) show ?thesis
    by (cases "database_set e") (simp_all add: trackAccess_outcome [OF lr pr] save_outcome)
qed

lemma trackAccess_save_failure:
  assumes lr: "snd (getLocation e) = Resolved lr" and pr: "snd (capturePhoto e) = Resolved pr"
    and fails: "ref_throws e (access_path e linkId) \<noteq> None \<or> (\<exists>m. database_set e = Refused m)"
  shows "\<exists>r. snd (trackAccess e linkId) = Resolved r \<and>
           errors_save (errors r) = Some ''Failed to save tracking data'' \<and>
           location r = result_location lr \<and> photo r = result_photo pr \<and>
           device r = getDeviceInfo e \<and> timestamp r = now_start e"
proof -
  from fails have "snd (trackAccess e linkId) = Resolved (save_failed (merged lr pr e))"
    by (auto simp add: trackAccess_outcome [OF lr pr] save_outcome)
  moreover have "device (merged lr pr e) = getDeviceInfo e \<and> timestamp (merged lr pr e) = now_start e"
    by (simp add: merged_def merge_location_def merge_photo_def initial_def
        split: option.split)
  moreover note merged_location [OF getLocation_resolved [OF lr], of pr e]
    merged_photo [OF capturePhoto_resolved [OF pr], of lr e]
  ultimately show ?thesis by (simp add: save_failed_def)
qed

text \<open>
  The copy in \<^verbatim>\<open>src/services/trackingService.ts\<close> throws the write's error again: with
  both steps resolved, a refused write rejects the promise.
\<close>

lemma trackAccess_svc_rejects:
  assumes "snd (getLocation_svc e) = Resolved lr" and "snd (capturePhoto_svc e) = Resolved pr"
    and "ref_throws e (access_path e linkId) = None" and "database_set e = Refused m"
  shows "snd (trackAccess_svc e linkId) = Rejected (SdkError m)"
proof -
  obtain t1 where g: "getLocation_svc e = (t1, Resolved lr)"
    using assms(1) by (cases "getLocation_svc e") simp
  obtain t2 where c: "capturePhoto_svc e = (t2, Resolved pr)"
    using assms(2) by (cases "capturePhoto_svc e") simp
  from assms(3,4) show ?thesis
    by (simp add: trackAccess_svc_def g c ref_def set_promise_def split: prod.split)
qed

text \<open>
  C2. \<open>trackAccess\<close> never raises, and a failed write is reported in \<^verbatim>\<open>errors.save\<close> of
  the returned record. The copy in \<^verbatim>\<open>src/services/trackingService.ts\<close> departs from
  this: in the scenario with the write refused it rejects with the write's error and
  returns no record.
\<close>

theorem trackAccess_svc_rethrows:
  "snd (trackAccess_svc visit_write_refused ''abc123_user1'') =
     Rejected (SdkError ''PERMISSION_DENIED'')"
  by (simp add: trackAccess_svc_def getLocation_svc_def position_request_def capturePhoto_svc_def media_request_def
      merge_location_def merge_photo_def truthy_def ref_def set_promise_def
      visit_write_refused_def visit_def)

subsection \<open>C3: a failed geocoding request leaves the coordinates\<close>

text \<open>
  The copy with the inner \<^verbatim>\<open>try\<close> does what the claim says: with the position acquired
  and the geocoding request failed, the result is the location with exactly the two
  coordinates and no error.
\<close>

lemma getLocation_geocoding_failure:
  assumes "navigator_geolocation e" and "getCurrentPosition e = Resolved (lat, lon)"
    and "(\<exists>err. fetch_json e = Rejected err) \<or> fetch_json e = Resolved JsonNull"
  shows "snd (getLocation e) =
           Resolved \<lparr>result_location =
                       Some \<lparr>latitude = lat, longitude = lon, country = None,
                             countryCode = None, city = None\<rparr>,
                     location_error = None\<rparr>"
  using assms by (auto simp add: getLocation_def position_request_def coordinates_only_def)

text \<open>The copy in \<^verbatim>\<open>src/services/trackingService.ts\<close> reports an error instead.\<close>

lemma getLocation_svc_failure:
  assumes "navigator_geolocation e" and "getCurrentPosition e = Resolved (lat, lon)"
    and "(\<exists>err. fetch_json e = Rejected err) \<or> fetch_json e = Resolved JsonNull"
  shows "snd (getLocation_svc e) =
           Resolved \<lparr>result_location = None, location_error = Some ''Location access denied''\<rparr>"
  using assms by (auto simp add: getLocation_svc_def position_request_def)

text \<open>
  C3. When the position is acquired and the geocoding request fails, \<open>getLocation\<close>
  succeeds with the raw coordinates. The copy in \<^verbatim>\<open>src/services/trackingService.ts\<close>
  departs from this: in the scenario (position 10, 20; geocoding request failed) it
  answers the error \<^verbatim>\<open>Location access denied\<close> and no location.
\<close>

theorem getLocation_svc_geocoding_failure:
  "getLocation_svc visit =
     ([Call_getCurrentPosition, Call_fetch 10 20],
      Resolved \<lparr>result_location = None, location_error = Some ''Location access denied''\<rparr>)"
  by (simp add: getLocation_svc_def position_request_def visit_def)

subsection \<open>C4: the camera is released on every path that reaches playback\<close>

text \<open>With a drawing context, every track of the stream is stopped before the promise
  resolves; without one, the handler resolves after two calls and stops nothing.\<close>

lemma capturePhoto_stops_tracks:
  assumes "navigator_mediaDevices e" and "getUserMedia e = Resolved stream"
    and "loadedmetadata e" and "getContext e"
  shows "\<forall>track \<in> set stream. Call_stop track \<in> set (fst (capturePhoto e))"
  using assms by (simp add: capturePhoto_def media_request_def onloadedmetadata_def)

lemma capturePhoto_without_context:
  assumes "navigator_mediaDevices e" and "getUserMedia e = Resolved stream"
    and "loadedmetadata e" and "\<not> getContext e"
  shows "capturePhoto e =
           ([Call_getUserMedia, Call_play, Call_getContext],
            Resolved \<lparr>result_photo = None, photo_error = Some ''Could not get canvas context''\<rparr>)"
  using assms by (simp add: capturePhoto_def media_request_def onloadedmetadata_def)

text \<open>
  C4. On every path of \<open>capturePhoto\<close> on which the metadata handler fires, all tracks
  of the stream are stopped before the promise resolves. The code departs from this
  when the canvas has no drawing context: with a stream of one track, the run below
  resolves with \<^verbatim>\<open>Could not get canvas context\<close> and its events hold no \<open>Call_stop\<close>.
\<close>

theorem capturePhoto_no_context:
  "capturePhoto visit_no_context =
     ([Call_getUserMedia, Call_play, Call_getContext],
      Resolved \<lparr>result_photo = None, photo_error = Some ''Could not get canvas context''\<rparr>)"
  by (simp add: capturePhoto_def media_request_def onloadedmetadata_def visit_no_context_def visit_def)

subsection \<open>C5: the failure of the position request is classified\<close>

text \<open>
  The \<^verbatim>\<open>catch\<close> block asks \<^verbatim>\<open>error instanceof Error && error.code === 1\<close>. The request is
  made at most once: once where \<^verbatim>\<open>navigator.geolocation\<close> is defined, never where it is
  not. Every \<open>GeolocationPositionError\<close>, code 1 included, gets the generic message,
  because it is not an instance of \<^verbatim>\<open>Error\<close>.
\<close>

lemma getLocation_failure:
  assumes "navigator_geolocation e" and "getCurrentPosition e = Rejected err"
  shows "getLocation e =
           ([Call_getCurrentPosition],
            Resolved \<lparr>result_location = None,
                      location_error = Some
                        (if instanceof_Error err \<and> error_code err = Some 1
                         then ''Location access denied by user''
                         else ''Location not available or access denied'')\<rparr>)"
  using assms by (simp add: getLocation_def position_request_def)

lemma getLocation_position_error:
  assumes "navigator_geolocation e"
    and "getCurrentPosition e = Rejected (GeolocationPositionError c)"
  shows "snd (getLocation e) =
           Resolved \<lparr>result_location = None,
                     location_error = Some ''Location not available or access denied''\<rparr>"
  by (simp add: getLocation_failure [OF assms])

lemma getLocation_without_geolocation:
  assumes "\<not> navigator_geolocation e"
  shows "getLocation e =
           ([], Resolved \<lparr>result_location = None,
                          location_error = Some ''Location not available or access denied''\<rparr>)"
  using assms by (simp add: getLocation_def position_request_def)

lemma getLocation_one_request:
  "count_list (fst (getLocation e)) Call_getCurrentPosition =
     (if navigator_geolocation e then 1 else 0)"
  by (simp add: getLocation_def position_request_def split: promise.split prod.split json.split)

text \<open>
  C5. A failure of the position request with code 1 (denied by the user) gives the error
  \<^verbatim>\<open>Location access denied by user\<close>, every other failure the generic error, and there
  is no retry. The code departs from the first part: when the platform reports code 1,
  \<open>getLocation\<close> answers \<^verbatim>\<open>Location not available or access denied\<close>.
\<close>

theorem getLocation_denied:
  "getLocation visit_location_denied =
     ([Call_getCurrentPosition],
      Resolved \<lparr>result_location = None,
                location_error = Some ''Location not available or access denied''\<rparr>)"
  by (simp add: getLocation_def position_request_def visit_location_denied_def visit_def)

subsection \<open>C6: the failure of the camera request is classified\<close>

text \<open>
  The copy that classifies does what the claim says: a \<^verbatim>\<open>NotAllowedError\<close> gives
  \<^verbatim>\<open>Camera access denied by user\<close>, any other rejection the generic message, and the
  record of a completed run has no photo and that message in \<^verbatim>\<open>errors.photo\<close>.
\<close>

lemma capturePhoto_failure:
  assumes "navigator_mediaDevices e" and "getUserMedia e = Rejected (DOMException n c)"
  shows "capturePhoto e =
           ([Call_getUserMedia],
            Resolved \<lparr>result_photo = None,
                      photo_error = Some
                        (if n = ''NotAllowedError'' then ''Camera access denied by user''
                         else ''Camera not available or access denied'')\<rparr>)"
  using assms by (simp add: capturePhoto_def media_request_def)

text \<open>Without \<^verbatim>\<open>navigator.mediaDevices\<close> no request is made and the message is the generic one.\<close>

lemma capturePhoto_without_mediaDevices:
  assumes "\<not> navigator_mediaDevices e"
  shows "capturePhoto e =
           ([], Resolved \<lparr>result_photo = None,
                          photo_error = Some ''Camera not available or access denied''\<rparr>)"
  using assms by (simp add: capturePhoto_def media_request_def)

lemma trackAccess_camera_failure:
  assumes "navigator_mediaDevices e" and "getUserMedia e = Rejected err"
    and "snd (trackAccess e linkId) = Resolved r"
  shows "photo r = None \<and>
         errors_photo (errors r) = Some
           (if instanceof_Error err \<and> error_name err = Some ''NotAllowedError''
            then ''Camera access denied by user''
            else ''Camera not available or access denied'')"
proof -
  from trackAccess_resolved [OF assms(3)] obtain lr pr where
    lr: "snd (getLocation e) = Resolved lr" and pr: "snd (capturePhoto e) = Resolved pr" and
    r: "r = merged lr pr e \<or> r = save_failed (merged lr pr e)" by blast
  from assms(1,2) pr have "result_photo pr = None \<and> photo_error pr = Some
           (if instanceof_Error err \<and> error_name err = Some ''NotAllowedError''
            then ''Camera access denied by user''
            else ''Camera not available or access denied'')"
    by (auto simp add: capturePhoto_def media_request_def)
  moreover note merged_photo [OF capturePhoto_resolved [OF pr], of lr e]
  moreover from r have "photo r = photo (merged lr pr e) \<and>
     errors_photo (errors r) = errors_photo (errors (merged lr pr e))"
    by (elim disjE) (simp_all add: save_failed_def)
  ultimately show ?thesis by simp
qed

text \<open>The copy in \<^verbatim>\<open>src/services/trackingService.ts\<close> has one message for every rejection.\<close>

lemma capturePhoto_svc_without_mediaDevices:
  assumes "\<not> navigator_mediaDevices e"
  shows "capturePhoto_svc e =
           ([], Resolved \<lparr>result_photo = None, photo_error = Some ''Camera access denied''\<rparr>)"
  using assms by (simp add: capturePhoto_svc_def media_request_def)

lemma capturePhoto_svc_failure:
  assumes "navigator_mediaDevices e" and "getUserMedia e = Rejected err"
  shows "snd (capturePhoto_svc e) =
           Resolved \<lparr>result_photo = None, photo_error = Some ''Camera access denied''\<rparr>"
  using assms by (simp add: capturePhoto_svc_def media_request_def)

text \<open>
  C6. A denied camera request gives \<^verbatim>\<open>Camera access denied by user\<close>, any other failure
  \<^verbatim>\<open>Camera not available or access denied\<close>. The copy in
  \<^verbatim>\<open>src/services/trackingService.ts\<close> departs from this: in the scenario (the visitor
  denies the camera, a \<^verbatim>\<open>NotAllowedError\<close>) it answers \<^verbatim>\<open>Camera access denied\<close>.
\<close>

theorem capturePhoto_svc_denied:
  "capturePhoto_svc visit =
     ([Call_getUserMedia],
      Resolved \<lparr>result_photo = None, photo_error = Some ''Camera access denied''\<rparr>)"
  by (simp add: capturePhoto_svc_def media_request_def visit_def)

subsection \<open>C7: device information is never absent\<close>

text \<open>
  C7. \<open>getDeviceInfo\<close> returns a device record in every environment; when the
  introspection fails (the \<^verbatim>\<open>try\<close> block throws, which is when reading the user agent
  or the screen throws or the screen is undefined), all four fields are \<^verbatim>\<open>Unknown\<close>.
\<close>

theorem getDeviceInfo_never_absent:
  "(\<exists>d. getDeviceInfo e = Some d) \<and>
   (isl (getDeviceInfo_try e) \<longrightarrow>
      getDeviceInfo e =
        Some \<lparr>device_type = ''Unknown'', os = ''Unknown'', browser = ''Unknown'',
              screenResolution = ''Unknown''\<rparr>) \<and>
   (isl (getDeviceInfo_try e) \<longleftrightarrow>
      isl (navigator_userAgent e) \<or> isl (window_screen e) \<or> window_screen e = Inr None)"
proof (intro conjI impI)
  show "\<exists>d. getDeviceInfo e = Some d"
    by (simp add: getDeviceInfo_def split: sum.split)
  show "getDeviceInfo e =
        Some \<lparr>device_type = ''Unknown'', os = ''Unknown'', browser = ''Unknown'',
              screenResolution = ''Unknown''\<rparr>" if "isl (getDeviceInfo_try e)"
    using that by (cases "getDeviceInfo_try e") (simp_all add: getDeviceInfo_def Unknown_def)
  show "isl (getDeviceInfo_try e) \<longleftrightarrow>
      isl (navigator_userAgent e) \<or> isl (window_screen e) \<or> window_screen e = Inr None"
    by (simp add: getDeviceInfo_try_def split: sum.split option.split prod.split)
qed

text \<open>An environment without a screen.\<close>

theorem getDeviceInfo_never_absent_witness:
  "isl (getDeviceInfo_try visit_no_screen) \<and>
   getDeviceInfo visit_no_screen =
     Some \<lparr>device_type = ''Unknown'', os = ''Unknown'', browser = ''Unknown'',
           screenResolution = ''Unknown''\<rparr>"
proof -
  have "isl (getDeviceInfo_try visit_no_screen)"
    by (simp add: getDeviceInfo_try_def visit_no_screen_def visit_def)
  with getDeviceInfo_never_absent [of visit_no_screen] show ?thesis by simp
qed

subsection \<open>C8: the location step ends before the photo step begins\<close>

text \<open>
  C8. In every run of \<open>trackAccess\<close> the events split in two: first the events of the
  location step only, none of them an event of the photo step; then no event of the
  location step. When there is a second part, \<open>getLocation\<close> has resolved, the last
  event of the first part is the assignment of its result to the record, and the second
  part begins with an event of the photo step. So the location step is resolved and
  merged before the photo step begins, and the two are never interleaved.
\<close>

theorem trackAccess_sequential:
  "\<exists>pre post.
      fst (trackAccess e linkId) = pre @ post \<and>
      (\<forall>ev \<in> set pre. location_step ev \<and> \<not> photo_step ev) \<and>
      (\<forall>ev \<in> set post. \<not> location_step ev) \<and>
      (post \<noteq> [] \<longrightarrow>
         (\<exists>locationResult. snd (getLocation e) = Resolved locationResult) \<and>
         pre \<noteq> [] \<and> last pre \<in> {Assign_location, Assign_errors_location} \<and>
         photo_step (hd post))"
proof -
  obtain t1 p1 where g: "getLocation e = (t1, p1)" by (cases "getLocation e")
  from getLocation_events [of _ e] g have t1: "\<forall>ev \<in> set t1. location_step ev" by simp
  from getLocation_never_rejects [of e] g have nr1: "\<And>err. p1 \<noteq> Rejected err" by simp
  show ?thesis
  proof (cases p1)
    case Pending
    with g have "fst (trackAccess e linkId) = t1 @ []" by (simp add: trackAccess_def)
    with t1 photo_not_location show ?thesis
      by (intro exI [of _ t1] exI [of _ "[]"]) auto
  next
    case (Rejected err)
    with nr1 [of err] show ?thesis by simp
  next
    case (Resolved lr)
    obtain m1 td1 where m: "merge_location lr (initial e) = (m1, td1)"
      by (cases "merge_location lr (initial e)")
    from g Resolved have "snd (getLocation e) = Resolved lr" by simp
    from merge_location_events [OF getLocation_resolved [OF this], of "initial e"] m
    have m1: "m1 = [Assign_location] \<or> m1 = [Assign_errors_location]" by simp
    obtain t2 p2 where c: "capturePhoto e = (t2, p2)" by (cases "capturePhoto e")
    from capturePhoto_events [of _ e] c have t2: "\<forall>ev \<in> set t2. photo_step ev" by simp
    from capturePhoto_never_rejects [of e] c have nr2: "\<And>err. p2 \<noteq> Rejected err" by simp
    obtain ph rest where split: "fst (trackAccess e linkId) = (t1 @ m1) @ (ph @ rest)"
      and ph: "ph \<noteq> []" "\<forall>ev \<in> set ph. photo_step ev"
      and restev: "\<forall>ev \<in> set rest. \<not> location_step ev"
    proof (cases p2)
      case Pending
      with g Resolved m c have "fst (trackAccess e linkId) = (t1 @ m1) @ (t2 @ [])"
        by (simp add: trackAccess_def)
      moreover from capturePhoto_pending [of e] c Pending have "t2 \<noteq> []" by simp
      ultimately show ?thesis using that [of t2 "[]"] t2 by simp
    next
      case (Rejected err)
      with nr2 [of err] show ?thesis by simp
    next
      case (Resolved pr)
      obtain m2 td2 where mp: "merge_photo pr td1 = (m2, td2)" by (cases "merge_photo pr td1")
      obtain t3 r3 where s: "save e linkId td2 = (t3, r3)" by (cases "save e linkId td2")
      from c Resolved have "snd (capturePhoto e) = Resolved pr" by simp
      from merge_photo_assigns [OF capturePhoto_resolved [OF this], of td1] mp
      have m2: "m2 = [Assign_photo] \<or> m2 = [Assign_errors_photo]" by simp
      from save_events [of _ e linkId td2] s have t3: "\<forall>ev \<in> set t3. \<not> location_step ev" by simp
      from g \<open>p1 = Resolved lr\<close> m c Resolved mp s
      have "fst (trackAccess e linkId) = (t1 @ m1) @ ((t2 @ m2) @ t3)"
        by (simp add: trackAccess_def)
      moreover from m2 have "t2 @ m2 \<noteq> []" by auto
      moreover from t2 m2 have "\<forall>ev \<in> set (t2 @ m2). photo_step ev" by auto
      ultimately show ?thesis using that [of "t2 @ m2" t3] t3 by simp
    qed
    from t1 m1 photo_not_location
    have pre: "\<forall>ev \<in> set (t1 @ m1). location_step ev \<and> \<not> photo_step ev" by auto
    from ph restev photo_not_location have post: "\<forall>ev \<in> set (ph @ rest). \<not> location_step ev"
      by auto
    from m1 have lastpre: "t1 @ m1 \<noteq> [] \<and> last (t1 @ m1) \<in> {Assign_location, Assign_errors_location}"
      by auto
    from ph have hdpost: "photo_step (hd (ph @ rest))" by (cases ph) simp_all
    from g Resolved have "\<exists>locationResult. snd (getLocation e) = Resolved locationResult" by simp
    with split pre post lastpre hdpost show ?thesis
      by (intro exI [of _ "t1 @ m1"] exI [of _ "ph @ rest"]) simp
  qed
qed

text \<open>The scenario has both parts.\<close>

theorem trackAccess_sequential_witness:
  "fst (trackAccess visit ''abc123_user1'') =
     [Call_getCurrentPosition, Call_fetch 10 20, Assign_location] @
     [Call_getUserMedia, Assign_errors_photo,
      Call_set_access ''accesses/abc123_user1/1700000000750'' visit_record] \<and>
   (\<exists>pre post.
      fst (trackAccess visit ''abc123_user1'') = pre @ post \<and>
      (\<forall>ev \<in> set pre. location_step ev \<and> \<not> photo_step ev) \<and>
      (\<forall>ev \<in> set post. \<not> location_step ev) \<and>
      post \<noteq> [] \<and>
      (\<exists>locationResult. snd (getLocation visit) = Resolved locationResult) \<and>
      pre \<noteq> [] \<and> last pre \<in> {Assign_location, Assign_errors_location} \<and>
      photo_step (hd post))"
proof -
  have run: "fst (trackAccess visit ''abc123_user1'') =
     [Call_getCurrentPosition, Call_fetch 10 20, Assign_location] @
     [Call_getUserMedia, Assign_errors_photo,
      Call_set_access ''accesses/abc123_user1/1700000000750'' visit_record]"
    by (simp add: trackAccess_visit)
  from trackAccess_sequential [of visit "''abc123_user1''"] obtain pre post where
    split: "fst (trackAccess visit ''abc123_user1'') = pre @ post" and
    pre: "\<forall>ev \<in> set pre. location_step ev \<and> \<not> photo_step ev" and
    post: "\<forall>ev \<in> set post. \<not> location_step ev" and
    hand: "post \<noteq> [] \<longrightarrow>
         (\<exists>locationResult. snd (getLocation visit) = Resolved locationResult) \<and>
         pre \<noteq> [] \<and> last pre \<in> {Assign_location, Assign_errors_location} \<and>
         photo_step (hd post)"
    by blast
  have "Call_getUserMedia \<in> set (fst (trackAccess visit ''abc123_user1''))"
    by (simp add: run)
  with split have "Call_getUserMedia \<in> set pre \<or> Call_getUserMedia \<in> set post" by simp
  with pre have "post \<noteq> []" by auto
  with split pre post hand run show ?thesis by blast
qed

text \<open>
  On an insecure origin the photo step makes no camera request: what follows the
  assignment of the location is the assignment of \<^verbatim>\<open>errors.photo\<close>.
\<close>

lemma trackAccess_insecure:
  "fst (trackAccess visit_insecure ''abc123_user1'') =
     [Call_getCurrentPosition, Call_fetch 10 20, Assign_location, Assign_errors_photo,
      Call_set_access ''accesses/abc123_user1/1700000000750''
        (visit_record\<lparr>errors := (errors visit_record)
           \<lparr>errors_photo := Some ''Camera not available or access denied''\<rparr>\<rparr>)]"
proof -
  have g: "getLocation visit_insecure = getLocation visit"
    by (simp add: getLocation_def position_request_def visit_insecure_def)
  have c: "capturePhoto visit_insecure =
      ([], Resolved \<lparr>result_photo = None,
                     photo_error = Some ''Camera not available or access denied''\<rparr>)"
    by (rule capturePhoto_without_mediaDevices) (simp add: visit_insecure_def)
  have same: "navigator_userAgent visit_insecure = navigator_userAgent visit"
    "window_screen visit_insecure = window_screen visit"
    "now_start visit_insecure = now_start visit"
    by (simp_all add: visit_insecure_def)
  have i: "initial visit_insecure = initial visit"
    by (simp only: initial_def getDeviceInfo_def getDeviceInfo_try_def same)
  have p: "access_path visit_insecure ''abc123_user1'' = access_path visit ''abc123_user1''"
    by (simp add: access_path_def visit_insecure_def)
  have r: "ref visit_insecure = ref visit"
    by (rule ext) (simp add: ref_def visit_insecure_def)
  have s: "set_promise visit_insecure = set_promise visit"
    by (simp add: set_promise_def visit_insecure_def)
  show ?thesis
    by (simp add: trackAccess_def g c i p r s getLocation_visit merge_location_def
      merge_photo_def initial_visit truthy_def coordinates_only_def
      save_def ref_visit set_promise_visit access_path_visit visit_record_def)
qed

text \<open>The copy in \<^verbatim>\<open>src/services/trackingService.ts\<close> awaits the two steps in the same order.\<close>

lemma trackAccess_svc_sequential:
  "\<exists>pre post.
      fst (trackAccess_svc e linkId) = pre @ post \<and>
      (\<forall>ev \<in> set pre. location_step ev \<and> \<not> photo_step ev) \<and>
      (\<forall>ev \<in> set post. \<not> location_step ev) \<and>
      (post \<noteq> [] \<longrightarrow>
         (\<exists>locationResult. snd (getLocation_svc e) = Resolved locationResult) \<and>
         pre \<noteq> [] \<and> last pre \<in> {Assign_location, Assign_errors_location} \<and>
         photo_step (hd post))"
proof -
  obtain t1 p1 where g: "getLocation_svc e = (t1, p1)" by (cases "getLocation_svc e")
  from getLocation_svc_events [of _ e] g have t1: "\<forall>ev \<in> set t1. location_step ev" by simp
  from getLocation_svc_never_rejects [of e] g have nr1: "\<And>err. p1 \<noteq> Rejected err" by simp
  show ?thesis
  proof (cases p1)
    case Pending
    with g have "fst (trackAccess_svc e linkId) = t1 @ []" by (simp add: trackAccess_svc_def)
    with t1 photo_not_location show ?thesis
      by (intro exI [of _ t1] exI [of _ "[]"]) auto
  next
    case (Rejected err)
    with nr1 [of err] show ?thesis by simp
  next
    case (Resolved lr)
    obtain m1 td1 where m: "merge_location lr (initial e) = (m1, td1)"
      by (cases "merge_location lr (initial e)")
    from g Resolved have "snd (getLocation_svc e) = Resolved lr" by simp
    from merge_location_events [OF getLocation_svc_resolved [OF this], of "initial e"] m
    have m1: "m1 = [Assign_location] \<or> m1 = [Assign_errors_location]" by simp
    obtain t2 p2 where c: "capturePhoto_svc e = (t2, p2)" by (cases "capturePhoto_svc e")
    from capturePhoto_svc_events [of _ e] c have t2: "\<forall>ev \<in> set t2. photo_step ev" by simp
    from capturePhoto_svc_never_rejects [of e] c have nr2: "\<And>err. p2 \<noteq> Rejected err" by simp
    obtain ph rest where split: "fst (trackAccess_svc e linkId) = (t1 @ m1) @ (ph @ rest)"
      and ph: "ph \<noteq> []" "\<forall>ev \<in> set ph. photo_step ev"
      and restev: "\<forall>ev \<in> set rest. \<not> location_step ev"
    proof (cases p2)
      case Pending
      with g Resolved m c have "fst (trackAccess_svc e linkId) = (t1 @ m1) @ (t2 @ [])"
        by (simp add: trackAccess_svc_def)
      moreover from capturePhoto_svc_pending [of e] c Pending have "t2 \<noteq> []" by simp
      ultimately show ?thesis using that [of t2 "[]"] t2 by simp
    next
      case (Rejected err)
      with nr2 [of err] show ?thesis by simp
    next
      case (Resolved pr)
      obtain m2 td2 where mp: "merge_photo pr td1 = (m2, td2)" by (cases "merge_photo pr td1")
      from c Resolved have "snd (capturePhoto_svc e) = Resolved pr" by simp
      from merge_photo_assigns [OF capturePhoto_svc_resolved [OF this], of td1] mp
      have m2: "m2 = [Assign_photo] \<or> m2 = [Assign_errors_photo]" by simp
      from g \<open>p1 = Resolved lr\<close> m c Resolved mp
      have "\<exists>w. fst (trackAccess_svc e linkId) = (t1 @ m1) @ ((t2 @ m2) @ w) \<and>
                (\<forall>ev \<in> set w. \<not> location_step ev)"
        by (simp add: trackAccess_svc_def split: sum.split promise.split)
      then obtain w where w: "fst (trackAccess_svc e linkId) = (t1 @ m1) @ ((t2 @ m2) @ w)"
        and wev: "\<forall>ev \<in> set w. \<not> location_step ev" by blast
      from m2 have "t2 @ m2 \<noteq> []" by auto
      moreover from t2 m2 have "\<forall>ev \<in> set (t2 @ m2). photo_step ev" by auto
      ultimately show ?thesis using that [of "t2 @ m2" w] w wev by simp
    qed
    from t1 m1 photo_not_location
    have pre: "\<forall>ev \<in> set (t1 @ m1). location_step ev \<and> \<not> photo_step ev" by auto
    from ph restev photo_not_location have post: "\<forall>ev \<in> set (ph @ rest). \<not> location_step ev"
      by auto
    from m1 have lastpre: "t1 @ m1 \<noteq> [] \<and> last (t1 @ m1) \<in> {Assign_location, Assign_errors_location}"
      by auto
    from ph have hdpost: "photo_step (hd (ph @ rest))" by (cases ph) simp_all
    from g Resolved have "\<exists>locationResult. snd (getLocation_svc e) = Resolved locationResult" by simp
    with split pre post lastpre hdpost show ?thesis
      by (intro exI [of _ "t1 @ m1"] exI [of _ "ph @ rest"]) simp
  qed
qed

subsection \<open>C9: validateLink does not depend on the store\<close>

text \<open>
  C9. For every link id, what \<open>validateLink\<close> resolves to is the same for any two
  stores, so it does not depend on whether the link exists; it is \<^verbatim>\<open>false\<close> exactly when
  the read throws, and otherwise it is the handle of the subscription, not a boolean.
\<close>

theorem validateLink_ignores_store:
  "validateLink e db1 linkId = validateLink e db2 linkId \<and>
   (snd (validateLink e db linkId) = Resolved (Boolean False) \<longleftrightarrow>
      ref_throws e (''links/'' @ linkId) \<noteq> None) \<and>
   (ref_throws e (''links/'' @ linkId) = None \<longrightarrow>
      snd (validateLink e db linkId) = Resolved (Unsubscribe (''links/'' @ linkId)))"
  by (auto simp add: validateLink_def onValue_def ref_def split: option.splits)

text \<open>A store that holds the link and one that does not.\<close>

theorem validateLink_ignores_store_witness:
  "snapshot_exists (store_with_link ''links/abc123_user1'') \<and>
   \<not> snapshot_exists (store_without_link ''links/abc123_user1'') \<and>
   ref_throws visit (''links/'' @ ''abc123_user1'') = None \<and>
   validateLink visit store_with_link ''abc123_user1'' =
     validateLink visit store_without_link ''abc123_user1'' \<and>
   snd (validateLink visit store_with_link ''abc123_user1'') =
     Resolved (Unsubscribe ''links/abc123_user1'')"
proof -
  have r: "ref_throws visit (''links/'' @ ''abc123_user1'') = None" by (simp add: visit_def)
  have s: "snapshot_exists (store_with_link ''links/abc123_user1'') \<and>
           \<not> snapshot_exists (store_without_link ''links/abc123_user1'')"
    by (simp add: snapshot_exists_def store_with_link_def store_without_link_def)
  note v = validateLink_ignores_store
    [of visit store_with_link "''abc123_user1''" store_without_link store_with_link]
  from v have same: "validateLink visit store_with_link ''abc123_user1'' =
     validateLink visit store_without_link ''abc123_user1''" by (rule conjunct1)
  from v have "ref_throws visit (''links/'' @ ''abc123_user1'') = None \<longrightarrow>
     snd (validateLink visit store_with_link ''abc123_user1'') =
       Resolved (Unsubscribe (''links/'' @ ''abc123_user1''))" by (elim conjE)
  with r have handle: "snd (validateLink visit store_with_link ''abc123_user1'') =
     Resolved (Unsubscribe ''links/abc123_user1'')" by simp
  from r s same handle show ?thesis by (intro conjI) simp_all
qed

subsection \<open>C10: generateLink refuses an empty user id\<close>

text \<open>
  C10. \<open>generateLink\<close> throws \<^verbatim>\<open>User must be authenticated to generate links\<close> exactly
  when the user id is empty, and then writes nothing; for a non-empty user id whose
  link is written, it returns the origin followed by \<^verbatim>\<open>/track/\<close>, the uuid, an underscore
  and the user id.
\<close>

theorem generateLink_guard:
  "(snd (generateLink e userId) =
      Rejected (Error ''User must be authenticated to generate links'') \<longleftrightarrow> userId = []) \<and>
   (userId = [] \<longrightarrow> fst (generateLink e userId) = []) \<and>
   (userId \<noteq> [] \<and> ref_throws e (''links/'' @ uuid e @ ''_'' @ userId) = None \<and>
      database_set e = Written \<longrightarrow>
      generateLink e userId =
        ([Call_set_link (''links/'' @ uuid e @ ''_'' @ userId)
            \<lparr>link_userId = userId, link_createdAt = now_start e,
              link_url = origin e @ ''/track/'' @ uuid e @ ''_'' @ userId\<rparr>],
         Resolved (origin e @ ''/track/'' @ uuid e @ ''_'' @ userId)))"
  by (auto simp add: generateLink_def truthy_def ref_def set_promise_def Let_def
      split: option.splits sdk_write.splits)

text \<open>The empty user id, and \<^verbatim>\<open>user1\<close>.\<close>

theorem generateLink_guard_witness:
  "generateLink visit [] =
     ([], Rejected (Error ''User must be authenticated to generate links'')) \<and>
   ''user1'' \<noteq> [] \<and>
   ref_throws visit (''links/'' @ uuid visit @ ''_'' @ ''user1'') = None \<and>
   database_set visit = Written \<and>
   snd (generateLink visit ''user1'') =
     Resolved ''https://example.org/track/3b241101-e2bb_user1''"
proof -
  have h: "ref_throws visit (''links/'' @ uuid visit @ ''_'' @ ''user1'') = None \<and>
           database_set visit = Written"
    by (simp add: visit_def)
  have o: "origin visit = ''https://example.org'' \<and> uuid visit = ''3b241101-e2bb''"
    by (simp add: visit_def)
  from generateLink_guard [of visit "[]"] have
    "generateLink visit [] =
       ([], Rejected (Error ''User must be authenticated to generate links''))"
    by (simp add: prod_eq_iff)
  moreover from generateLink_guard [of visit "''user1''"] h o have
    "snd (generateLink visit ''user1'') =
       Resolved ''https://example.org/track/3b241101-e2bb_user1''"
    by simp
  ultimately show ?thesis using h by simp
qed

end
